theory Spec2Isabelle
  imports Main
begin

section \<open>Text operations used by the matcher\<close>

text \<open>
  A Python \<^verbatim>\<open>str\<close> is modelled as a \<^typ>\<open>string\<close> whose characters are the code points
  below 256; text with other code points is outside the model. On these code points
  \<^verbatim>\<open>\d\<close> matches the ten digits, \<^verbatim>\<open>str.isspace()\<close> holds of the ASCII white space,
  of U+0085 and of U+00A0, and \<^verbatim>\<open>str.lower()\<close> maps A-Z and the capital letters
  U+00C0-U+00DE (without the multiplication sign) to their small letters.
  \<^verbatim>\<open>str.upper()\<close> maps a-z and U+00E0-U+00FE (without the division sign) to their
  capitals and the sharp s (U+00DF) to \<^verbatim>\<open>SS\<close>. It maps the micro sign (U+00B5) and
  y with diaeresis (U+00FF) to capitals beyond U+00FF: the model leaves these two
  unchanged. No other character has them as its capital, so a substring test between
  two uppercased texts has the same result as in Python.
\<close>

definition is_digit :: "char \<Rightarrow> bool" where
  "is_digit c = (c \<in> set ''0123456789'')"

text \<open>\<^verbatim>\<open>re.sub(r'\d+', '', s)\<close>: every run of digits is deleted, so every digit is.\<close>

definition re_sub_digits :: "string \<Rightarrow> string" where
  "re_sub_digits s = filter (\<lambda>c. \<not> is_digit c) s"

definition is_space :: "char \<Rightarrow> bool" where
  "is_space c = (c \<in> set [CHR 0x09, CHR 0x0A, CHR 0x0B, CHR 0x0C, CHR 0x0D,
                            CHR 0x1C, CHR 0x1D, CHR 0x1E, CHR 0x1F, CHR 0x20,
                            CHR 0x85, CHR 0xA0])"

definition strip :: "string \<Rightarrow> string" where
  "strip s = rev (dropWhile is_space (rev (dropWhile is_space s)))"

definition small_letters :: string where
  "small_letters =
     ''abcdefghijklmnopqrstuvwxyz'' @
       [CHR 0xE0, CHR 0xE1, CHR 0xE2, CHR 0xE3, CHR 0xE4, CHR 0xE5, CHR 0xE6, CHR 0xE7,
        CHR 0xE8, CHR 0xE9, CHR 0xEA, CHR 0xEB, CHR 0xEC, CHR 0xED, CHR 0xEE, CHR 0xEF,
        CHR 0xF0, CHR 0xF1, CHR 0xF2, CHR 0xF3, CHR 0xF4, CHR 0xF5, CHR 0xF6,
        CHR 0xF8, CHR 0xF9, CHR 0xFA, CHR 0xFB, CHR 0xFC, CHR 0xFD, CHR 0xFE]"

definition capital_letters :: string where
  "capital_letters =
     ''ABCDEFGHIJKLMNOPQRSTUVWXYZ'' @
       [CHR 0xC0, CHR 0xC1, CHR 0xC2, CHR 0xC3, CHR 0xC4, CHR 0xC5, CHR 0xC6, CHR 0xC7,
        CHR 0xC8, CHR 0xC9, CHR 0xCA, CHR 0xCB, CHR 0xCC, CHR 0xCD, CHR 0xCE, CHR 0xCF,
        CHR 0xD0, CHR 0xD1, CHR 0xD2, CHR 0xD3, CHR 0xD4, CHR 0xD5, CHR 0xD6,
        CHR 0xD8, CHR 0xD9, CHR 0xDA, CHR 0xDB, CHR 0xDC, CHR 0xDD, CHR 0xDE]"

definition upper_char :: "char \<Rightarrow> char" where
  "upper_char c =
     (case map_of (zip small_letters capital_letters) c of None \<Rightarrow> c | Some u \<Rightarrow> u)"

definition lower_char :: "char \<Rightarrow> char" where
  "lower_char c =
     (case map_of (zip capital_letters small_letters) c of None \<Rightarrow> c | Some l \<Rightarrow> l)"

definition upper :: "string \<Rightarrow> string" where
  "upper s = concat (map (\<lambda>c. if c = CHR 0xDF then ''SS'' else [upper_char c]) s)"

definition lower :: "string \<Rightarrow> string" where
  "lower s = map lower_char s"

text \<open>\<^verbatim>\<open>s.startswith(p)\<close>, \<^verbatim>\<open>s.endswith(p)\<close> and the substring test \<^verbatim>\<open>p in s\<close>.\<close>

fun startswith :: "string \<Rightarrow> string \<Rightarrow> bool" where
  "startswith s [] = True"
| "startswith [] (p # ps) = False"
| "startswith (c # cs) (p # ps) = (c = p \<and> startswith cs ps)"

definition endswith :: "string \<Rightarrow> string \<Rightarrow> bool" where
  "endswith s p = startswith (rev s) (rev p)"

fun contains :: "string \<Rightarrow> string \<Rightarrow> bool" where
  "contains p [] = (p = [])"
| "contains p (c # cs) = (startswith (c # cs) p \<or> contains p cs)"

section \<open>\<^verbatim>\<open>pathlib\<close>: the stem of a file name\<close>

text \<open>
  \<^verbatim>\<open>Path(xml_filename).stem\<close>, in the POSIX flavour of \<^verbatim>\<open>pathlib\<close> up to Python 3.13.
  The name of a path is its last component, once the empty and the \<^verbatim>\<open>.\<close> components are
  dropped; the stem is the name up to its last dot, when that dot is neither the first nor
  the last character of the name.
\<close>

fun split_on :: "char \<Rightarrow> string \<Rightarrow> string list" where
  "split_on d [] = [[]]"
| "split_on d (c # cs) =
     (if c = d then [] # split_on d cs
      else (case split_on d cs of [] \<Rightarrow> [[c]] | w # ws \<Rightarrow> (c # w) # ws))"

definition path_name :: "string \<Rightarrow> string" where
  "path_name p =
     (case rev (filter (\<lambda>w. w \<noteq> [] \<and> w \<noteq> ''.'') (split_on CHR ''/'' p)) of
        [] \<Rightarrow> [] | n # _ \<Rightarrow> n)"

definition rfind :: "char \<Rightarrow> string \<Rightarrow> nat option" where
  "rfind c s =
     (if c \<in> set s then Some (length s - 1 - length (takeWhile (\<lambda>x. x \<noteq> c) (rev s)))
      else None)"

definition stem :: "string \<Rightarrow> string" where
  "stem p =
     (let name = path_name p in
      case rfind CHR ''.'' name of
        None \<Rightarrow> name
      | Some i \<Rightarrow> if 0 < i \<and> i < length name - 1 then take i name else name)"

section \<open>The matcher\<close>

text \<open>
  \<^verbatim>\<open>find_matching_xslt\<close> of \<^verbatim>\<open>XSLTTransform.py\<close>. The key is computed once; the loop over
  the stylesheets is the recursion of \<open>find_matching_xslt_loop\<close>, which returns at the
  first stylesheet that passes the test of the source's \<^verbatim>\<open>if\<close>.
\<close>

definition clean_prefix :: "string \<Rightarrow> string" where
  "clean_prefix xml_filename =
     (let base_name = stem xml_filename in upper (strip (re_sub_digits base_name)))"

fun find_matching_xslt_loop :: "string \<Rightarrow> string list \<Rightarrow> string option" where
  "find_matching_xslt_loop prefix_clean [] = None"
| "find_matching_xslt_loop prefix_clean (xslt # rest) =
     (let xslt_upper = upper (strip xslt);
          statusExist = (contains ''STATUS'' (upper prefix_clean) \<and> contains ''STATUS'' xslt_upper)
      in if contains prefix_clean xslt_upper \<and> statusExist then Some xslt
         else find_matching_xslt_loop prefix_clean rest)"

definition find_matching_xslt :: "string \<Rightarrow> string list \<Rightarrow> string option" where
  "find_matching_xslt xml_filename xslt_files =
     find_matching_xslt_loop (clean_prefix xml_filename) xslt_files"

text \<open>
  \<^verbatim>\<open>find_matching_xslt\<close> of \<^verbatim>\<open>xsltTransformerandScraper.py\<close>: the same key, and the
  substring test alone.
\<close>

fun find_matching_xslt_scraper_loop :: "string \<Rightarrow> string list \<Rightarrow> string option" where
  "find_matching_xslt_scraper_loop prefix_clean [] = None"
| "find_matching_xslt_scraper_loop prefix_clean (xslt # rest) =
     (let xslt_upper = upper (strip xslt)
      in if contains prefix_clean xslt_upper then Some xslt
         else find_matching_xslt_scraper_loop prefix_clean rest)"

definition find_matching_xslt_scraper :: "string \<Rightarrow> string list \<Rightarrow> string option" where
  "find_matching_xslt_scraper xml_filename xslt_files =
     find_matching_xslt_scraper_loop (clean_prefix xml_filename) xslt_files"

text \<open>The test one stylesheet has to pass in \<^verbatim>\<open>XSLTTransform.py\<close>, as a predicate.\<close>

definition passes_test :: "string \<Rightarrow> string \<Rightarrow> bool" where
  "passes_test prefix_clean xslt =
     (contains prefix_clean (upper (strip xslt)) \<and>
      contains ''STATUS'' (upper prefix_clean) \<and> contains ''STATUS'' (upper (strip xslt)))"

section \<open>Paths, the environment and the program state\<close>

text \<open>
  A \<^verbatim>\<open>Path\<close> is modelled by its \<^verbatim>\<open>parts\<close>. The names joined to a path in this program
  are directory entries delivered by \<^verbatim>\<open>os.walk\<close> and \<^verbatim>\<open>os.listdir\<close>, or the configured
  output folder name: each is one segment, so \<^verbatim>\<open>p / name\<close> appends one part.
\<close>

type_synonym path = "string list"

definition joinpath :: "path \<Rightarrow> string \<Rightarrow> path" where
  "joinpath p name = p @ [name]"

definition parent :: "path \<Rightarrow> path" where
  "parent p = (if p = [''/''] then p else butlast p)"

fun join_parts :: "string list \<Rightarrow> string" where
  "join_parts [] = []"
| "join_parts [a] = a"
| "join_parts (a # b # rest) = a @ ''/'' @ join_parts (b # rest)"

definition path_str :: "path \<Rightarrow> string" where
  "path_str p =
     (case p of
        [] \<Rightarrow> ''.''
      | a # rest \<Rightarrow> if a = ''/'' then ''/'' @ join_parts rest else join_parts (a # rest))"

text \<open>\<^verbatim>\<open>input_file_path.relative_to(root_dir)\<close> raises \<^verbatim>\<open>ValueError\<close> outside the root.\<close>

definition relative_to :: "path \<Rightarrow> path \<Rightarrow> path option" where
  "relative_to p root_dir =
     (if take (length root_dir) p = root_dir then Some (drop (length root_dir) p) else None)"

text \<open>
  The four command lines the program hands to \<^verbatim>\<open>subprocess.run\<close>:
  \<^item> \<open>Saxon s x o\<close> is \<^verbatim>\<open>java -jar SAXON_JAR -s:s -xsl:x -o:o\<close>;
  \<^item> \<open>XmllintFormat f t\<close> is \<^verbatim>\<open>xmllint --format f -o t\<close>;
  \<^item> \<open>Mv t f\<close> is \<^verbatim>\<open>mv t f\<close>;
  \<^item> \<open>XmllintSchema s f\<close> is \<^verbatim>\<open>xmllint --noout --schema s f\<close>.
\<close>

datatype command =
    Saxon path path path
  | XmllintFormat path path
  | Mv path path
  | XmllintSchema path path

text \<open>
  Captured output is a \<^verbatim>\<open>bytes\<close> object, and the program reads it through
  \<^verbatim>\<open>.decode()\<close> only. It is modelled by what \<^verbatim>\<open>.decode()\<close> does with it: the bytes
  are valid UTF-8 and decode to a text, or they are not, and \<^verbatim>\<open>.decode()\<close> raises a
  \<^verbatim>\<open>UnicodeDecodeError\<close> with the given text.
\<close>

datatype captured =
    Decodes string
  | Undecodable string

text \<open>
  What an external program does: it cannot be started (\<^verbatim>\<open>subprocess.run\<close> raises an
  \<^verbatim>\<open>OSError\<close> with the given text), or it runs for some seconds and exits with a return
  code, its captured standard output and its captured standard error.
\<close>

datatype outcome =
    LaunchError string
  | Exited nat int captured captured

datatype exn =
    CalledProcessError int captured captured
  | TimeoutExpired
  | OSError string
  | ValueError
  | UnicodeDecodeError string

definition decode :: "captured \<Rightarrow> exn + string" where
  "decode b = (case b of Decodes t \<Rightarrow> Inr t | Undecodable msg \<Rightarrow> Inl (UnicodeDecodeError msg))"

text \<open>
  \<^verbatim>\<open>str(e)\<close>. The text of an \<^verbatim>\<open>OSError\<close> and of a \<^verbatim>\<open>UnicodeDecodeError\<close> is carried
  by the exception; the texts of the other three name the command line or the paths,
  which the model abbreviates.
\<close>

fun exn_str :: "exn \<Rightarrow> string" where
  "exn_str (OSError msg) = msg"
| "exn_str (UnicodeDecodeError msg) = msg"
| "exn_str (CalledProcessError rc out err) = ''Command returned non-zero exit status.''"
| "exn_str TimeoutExpired = ''Command timed out.''"
| "exn_str ValueError = ''path is not in the subpath of the root''"

text \<open>
  The environment of a run: how an external command behaves (given the commands run
  before it), what \<^verbatim>\<open>os.listdir\<close> and \<^verbatim>\<open>os.walk\<close> deliver, whether \<^verbatim>\<open>mkdir\<close> and
  \<^verbatim>\<open>open(..., "w")\<close> fail (with the text of the \<^verbatim>\<open>OSError\<close>), and the directory of
  the script.
\<close>

record env =
  run_process :: "command list \<Rightarrow> command \<Rightarrow> outcome"
  listdir :: "path \<Rightarrow> string + string list"
  walk :: "path \<Rightarrow> (path \<times> string list \<times> string list) list"
  mkdir_error :: "path \<Rightarrow> string option"
  open_error :: "path \<Rightarrow> string option"
  script_dir :: path

text \<open>
  The state: the two global trackers, the messages given to \<^verbatim>\<open>logging.error\<close>, the
  external commands run so far (oldest first), the directories created and the files
  written by the reporter, each with the list of strings written to it. Output of
  \<^verbatim>\<open>print\<close> is not modelled.
\<close>

record state =
  validation_errors :: "(string \<times> string) list"
  unmatched_files :: "string list"
  error_log :: "string list"
  calls :: "command list"
  made_dirs :: "path list"
  written :: "(path \<times> string list) list"

definition initial_state :: state where
  "initial_state =
     \<lparr>validation_errors = [], unmatched_files = [], error_log = [], calls = [],
      made_dirs = [], written = []\<rparr>"

text \<open>\<^verbatim>\<open>d[k] = v\<close> on a dictionary that keeps insertion order.\<close>

fun dict_set :: "'k \<Rightarrow> 'v \<Rightarrow> ('k \<times> 'v) list \<Rightarrow> ('k \<times> 'v) list" where
  "dict_set k v [] = [(k, v)]"
| "dict_set k v ((k', v') # rest) =
     (if k' = k then (k, v) # rest else (k', v') # dict_set k v rest)"

text \<open>
  \<^verbatim>\<open>subprocess.run(command, check=..., timeout=...)\<close>. The command is run; a launch failure
  raises \<^verbatim>\<open>OSError\<close>, a run longer than the timeout raises \<^verbatim>\<open>TimeoutExpired\<close>, and with
  \<^verbatim>\<open>check=True\<close> a non-zero return code raises \<^verbatim>\<open>CalledProcessError\<close>.
\<close>

definition subprocess_run ::
  "env \<Rightarrow> command \<Rightarrow> bool \<Rightarrow> nat option \<Rightarrow> state
     \<Rightarrow> (exn + int \<times> captured \<times> captured) \<times> state" where
  "subprocess_run e cmd check timeout st =
     (let st' = st\<lparr>calls := calls st @ [cmd]\<rparr> in
      case run_process e (calls st) cmd of
        LaunchError msg \<Rightarrow> (Inl (OSError msg), st')
      | Exited secs rc out err \<Rightarrow>
          if (case timeout of None \<Rightarrow> False | Some limit \<Rightarrow> limit < secs)
          then (Inl TimeoutExpired, st')
          else if check \<and> rc \<noteq> 0 then (Inl (CalledProcessError rc out err), st')
          else (Inr (rc, out, err), st'))"

definition logging_error :: "string \<Rightarrow> state \<Rightarrow> state" where
  "logging_error msg st = st\<lparr>error_log := error_log st @ [msg]\<rparr>"

section \<open>Formatter and validator\<close>

text \<open>
  \<^verbatim>\<open>format_with_xmllint\<close>: two commands under one \<^verbatim>\<open>try\<close>, whose handler takes
  \<^verbatim>\<open>CalledProcessError\<close> only. The handler decodes the captured standard error before
  it logs; an error of that decoding is raised inside the handler and leaves the function.
  The result is the exception that leaves the function, if any.
\<close>

definition format_except :: "path \<Rightarrow> exn \<Rightarrow> state \<Rightarrow> exn option \<times> state" where
  "format_except file_path ex st =
     (case ex of
        CalledProcessError rc out err \<Rightarrow>
          (case decode err of
             Inl ex' \<Rightarrow> (Some ex', st)
           | Inr text \<Rightarrow>
               (None, logging_error (''xmllint formatting failed for '' @ path_str file_path
                                      @ '': '' @ strip text) st))
      | _ \<Rightarrow> (Some ex, st))"

definition format_with_xmllint :: "env \<Rightarrow> path \<Rightarrow> state \<Rightarrow> exn option \<times> state" where
  "format_with_xmllint e file_path st =
     (let temp_path = joinpath (parent file_path) ''temp.xml'' in
      case subprocess_run e (XmllintFormat file_path temp_path) True None st of
        (Inl ex, st1) \<Rightarrow> format_except file_path ex st1
      | (Inr _, st1) \<Rightarrow>
          (case subprocess_run e (Mv temp_path file_path) True None st1 of
             (Inl ex, st2) \<Rightarrow> format_except file_path ex st2
           | (Inr _, st2) \<Rightarrow> (None, st2)))"

text \<open>
  \<^verbatim>\<open>validate_xml_schema\<close>: one command with \<^verbatim>\<open>check=False\<close>, under a \<^verbatim>\<open>try\<close> whose
  handler takes every \<^verbatim>\<open>Exception\<close>. Standard output and standard error are decoded
  inside the \<^verbatim>\<open>try\<close>, before the return code is looked at.
\<close>

definition validate_except :: "path \<Rightarrow> exn \<Rightarrow> state \<Rightarrow> exn option \<times> state" where
  "validate_except file_path ex st =
     (None, st\<lparr>validation_errors :=
                 dict_set (path_str file_path) (exn_str ex) (validation_errors st)\<rparr>)"

definition validate_xml_schema :: "env \<Rightarrow> path \<Rightarrow> path \<Rightarrow> state \<Rightarrow> exn option \<times> state" where
  "validate_xml_schema e file_path schema_path st =
     (case subprocess_run e (XmllintSchema schema_path file_path) False None st of
        (Inl ex, st1) \<Rightarrow> validate_except file_path ex st1
      | (Inr (returncode, out, err), st1) \<Rightarrow>
          (case decode out of
             Inl ex \<Rightarrow> validate_except file_path ex st1
           | Inr out_text \<Rightarrow>
               (case decode err of
                  Inl ex \<Rightarrow> validate_except file_path ex st1
                | Inr err_text \<Rightarrow>
                    (let stdout = strip out_text; stderr = strip err_text in
                     if returncode = 0 then (None, st1)
                     else
                       (let error_msg =
                              (if stderr \<noteq> [] then stderr
                               else if stdout \<noteq> [] then stdout
                               else ''Validation failed with unknown error.'')
                        in (None, st1\<lparr>validation_errors :=
                                        dict_set (path_str file_path) error_msg
                                          (validation_errors st1)\<rparr>))))))"

section \<open>Transforming one file\<close>

text \<open>
  \<^verbatim>\<open>process_file\<close>: the transform with a 30 second timeout, the formatter and the optional
  validation, all under one \<^verbatim>\<open>try\<close> whose handler takes \<^verbatim>\<open>CalledProcessError\<close> only.
  The handler decodes the captured standard error first; an error of that decoding is
  raised inside the handler and leaves the function. The result is \<open>Inr\<close> of the returned
  boolean, or \<open>Inl\<close> of the exception that leaves the function.
\<close>

definition process_except :: "path \<Rightarrow> exn \<Rightarrow> state \<Rightarrow> (exn + bool) \<times> state" where
  "process_except input_file_path ex st =
     (case ex of
        CalledProcessError rc out err \<Rightarrow>
          (case decode err of
             Inl ex' \<Rightarrow> (Inl ex', st)
           | Inr error \<Rightarrow>
               (Inr False, logging_error (path_str input_file_path @ '' - '' @ strip error) st))
      | _ \<Rightarrow> (Inl ex, st))"

definition process_file ::
  "env \<Rightarrow> path \<Rightarrow> path \<Rightarrow> path \<Rightarrow> path option \<Rightarrow> state \<Rightarrow> (exn + bool) \<times> state" where
  "process_file e input_file_path output_file_path xslt_path schema_path st =
     (case subprocess_run e (Saxon input_file_path xslt_path output_file_path) True (Some 30) st of
        (Inl ex, st1) \<Rightarrow> process_except input_file_path ex st1
      | (Inr _, st1) \<Rightarrow>
          (case format_with_xmllint e output_file_path st1 of
             (Some ex, st2) \<Rightarrow> process_except input_file_path ex st2
           | (None, st2) \<Rightarrow>
               (case schema_path of
                  None \<Rightarrow> (Inr True, st2)
                | Some sp \<Rightarrow>
                    (case validate_xml_schema e output_file_path sp st2 of
                       (Some ex, st3) \<Rightarrow> process_except input_file_path ex st3
                     | (None, st3) \<Rightarrow> (Inr True, st3)))))"

section \<open>Output paths and the tree walker\<close>

text \<open>
  \<^verbatim>\<open>ensure_output_path\<close>. The \<^verbatim>\<open>chmod\<close> that follows the \<^verbatim>\<open>mkdir\<close> sits in a \<^verbatim>\<open>try\<close>
  that takes every exception and only prints, so it leaves no trace in the state.
\<close>

definition ensure_output_path ::
  "env \<Rightarrow> path \<Rightarrow> path \<Rightarrow> string \<Rightarrow> state \<Rightarrow> (exn + path) \<times> state" where
  "ensure_output_path e input_file_path root_dir modified_folder_name st =
     (case relative_to input_file_path root_dir of
        None \<Rightarrow> (Inl ValueError, st)
      | Some relative_path \<Rightarrow>
          (let modified_base = joinpath (parent root_dir) modified_folder_name;
               output_file_path = modified_base @ relative_path
           in case mkdir_error e (parent output_file_path) of
                Some msg \<Rightarrow> (Inl (OSError msg), st)
              | None \<Rightarrow>
                  (Inr output_file_path,
                   st\<lparr>made_dirs := made_dirs st @ [parent output_file_path]\<rparr>)))"

definition load_xslt_files :: "env \<Rightarrow> path \<Rightarrow> exn + string list" where
  "load_xslt_files e xslt_dir =
     (case listdir e xslt_dir of
        Inl msg \<Rightarrow> Inl (OSError msg)
      | Inr names \<Rightarrow> Inr (filter (\<lambda>f. endswith f ''.xsl'' \<or> endswith f ''.xslt'') names))"

text \<open>\<^verbatim>\<open>not matching_xslt\<close>: true of \<^verbatim>\<open>None\<close> and of the empty string.\<close>

definition falsy :: "string option \<Rightarrow> bool" where
  "falsy m = (case m of None \<Rightarrow> True | Some x \<Rightarrow> x = [])"

text \<open>The body of the inner loop of \<^verbatim>\<open>traverse_and_process\<close>, for one file of a directory.\<close>

definition process_entry ::
  "env \<Rightarrow> path \<Rightarrow> path \<Rightarrow> string \<Rightarrow> path option \<Rightarrow> string list \<Rightarrow> path \<Rightarrow> string \<Rightarrow> state
     \<Rightarrow> exn option \<times> state" where
  "process_entry e root_dir xslt_dir modified_folder_name schema_path xslt_files current_path file st =
     (if endswith (lower file) ''.xml'' then
        (let input_file_path = joinpath current_path file;
             matching_xslt = find_matching_xslt file xslt_files
         in if falsy matching_xslt then
              (None, (logging_error (''No matching XSLT for '' @ file) st)
                       \<lparr>unmatched_files := unmatched_files st @ [path_str input_file_path]\<rparr>)
            else
              (let xslt_path = joinpath xslt_dir (the matching_xslt) in
               case ensure_output_path e input_file_path root_dir modified_folder_name st of
                 (Inl ex, st1) \<Rightarrow> (Some ex, st1)
               | (Inr output_file_path, st1) \<Rightarrow>
                   (case process_file e input_file_path output_file_path xslt_path schema_path st1 of
                      (Inl ex, st2) \<Rightarrow> (Some ex, st2)
                    | (Inr success, st2) \<Rightarrow> (None, st2))))
      else (None, st))"

fun traverse_files ::
  "env \<Rightarrow> path \<Rightarrow> path \<Rightarrow> string \<Rightarrow> path option \<Rightarrow> string list \<Rightarrow> path \<Rightarrow> string list \<Rightarrow> state
     \<Rightarrow> exn option \<times> state" where
  "traverse_files e root_dir xslt_dir mfn schema_path xslt_files current_path [] st = (None, st)"
| "traverse_files e root_dir xslt_dir mfn schema_path xslt_files current_path (file # files) st =
     (case process_entry e root_dir xslt_dir mfn schema_path xslt_files current_path file st of
        (Some ex, st1) \<Rightarrow> (Some ex, st1)
      | (None, st1) \<Rightarrow>
          traverse_files e root_dir xslt_dir mfn schema_path xslt_files current_path files st1)"

fun traverse_dirs ::
  "env \<Rightarrow> path \<Rightarrow> path \<Rightarrow> string \<Rightarrow> path option \<Rightarrow> string list
     \<Rightarrow> (path \<times> string list \<times> string list) list \<Rightarrow> state \<Rightarrow> exn option \<times> state" where
  "traverse_dirs e root_dir xslt_dir mfn schema_path xslt_files [] st = (None, st)"
| "traverse_dirs e root_dir xslt_dir mfn schema_path xslt_files ((current_path, subdirs, files) # later) st =
     (if mfn \<in> set current_path then
        traverse_dirs e root_dir xslt_dir mfn schema_path xslt_files later st
      else
        (case traverse_files e root_dir xslt_dir mfn schema_path xslt_files current_path files st of
           (Some ex, st1) \<Rightarrow> (Some ex, st1)
         | (None, st1) \<Rightarrow> traverse_dirs e root_dir xslt_dir mfn schema_path xslt_files later st1))"

definition traverse_and_process ::
  "env \<Rightarrow> path \<Rightarrow> path \<Rightarrow> string \<Rightarrow> path option \<Rightarrow> state \<Rightarrow> exn option \<times> state" where
  "traverse_and_process e root_dir xslt_dir modified_folder_name schema_path st =
     (case load_xslt_files e xslt_dir of
        Inl ex \<Rightarrow> (Some ex, st)
      | Inr xslt_files \<Rightarrow>
          traverse_dirs e root_dir xslt_dir modified_folder_name schema_path xslt_files
            (walk e root_dir) st)"

section \<open>Reports and the main script\<close>

definition ljust :: "string \<Rightarrow> nat \<Rightarrow> string" where
  "ljust s n = s @ replicate (n - length s) CHR '' ''"

definition max_len :: "string list \<Rightarrow> nat" where
  "max_len xs = foldr max (map length xs) 0"

definition write_validation_report_to_txt :: "env \<Rightarrow> state \<Rightarrow> exn option \<times> state" where
  "write_validation_report_to_txt e st =
     (if validation_errors st = [] then (None, st)
      else
        (let report_path = joinpath (script_dir e) ''validation_report.txt'';
             max_file_len = max_len (map fst (validation_errors st));
             max_error_len = max_len (map snd (validation_errors st));
             separator = ''+'' @ replicate (max_file_len + 2) CHR ''-'' @ ''+''
                         @ replicate (max_error_len + 2) CHR ''-'' @ ''+''
         in case open_error e report_path of
              Some msg \<Rightarrow> (Some (OSError msg), st)
            | None \<Rightarrow>
                (None,
                 st\<lparr>written := dict_set report_path
                     (['' XML Schema Validation Error Report'' @ [CHR 0x0A],
                       separator @ [CHR 0x0A],
                       ''| '' @ ljust ''File Path'' max_file_len @ '' | ''
                         @ ljust ''Error'' max_error_len @ '' |'' @ [CHR 0x0A],
                       separator @ [CHR 0x0A]]
                      @ map (\<lambda>(filepath, error).
                               ''| '' @ ljust filepath max_file_len @ '' | ''
                                 @ ljust error max_error_len @ '' |'' @ [CHR 0x0A])
                            (validation_errors st)
                      @ [separator @ [CHR 0x0A]])
                     (written st)\<rparr>)))"

definition write_unmatched_files_report :: "env \<Rightarrow> state \<Rightarrow> exn option \<times> state" where
  "write_unmatched_files_report e st =
     (if unmatched_files st = [] then (None, st)
      else
        (let report_path = joinpath (script_dir e) ''unmatched_files_report.txt'' in
         case open_error e report_path of
           Some msg \<Rightarrow> (Some (OSError msg), st)
         | None \<Rightarrow>
             (None,
              st\<lparr>written := dict_set report_path
                  ([('' Unmatched XML Files (no matching XSLT):'' @ [CHR 0x0A, CHR 0x0A])]
                   @ map (\<lambda>filepath. filepath @ [CHR 0x0A]) (unmatched_files st))
                  (written st)\<rparr>)))"

text \<open>
  The main script: the walk, then the two reports, from the state the module starts
  with. An exception that leaves one step ends the script.
\<close>

definition main_script :: "env \<Rightarrow> path \<Rightarrow> path \<Rightarrow> path option \<Rightarrow> string \<Rightarrow> exn option \<times> state" where
  "main_script e root_dir xslt_dir schema_path modified_folder_name =
     (case traverse_and_process e root_dir xslt_dir modified_folder_name schema_path initial_state of
        (Some ex, st1) \<Rightarrow> (Some ex, st1)
      | (None, st1) \<Rightarrow>
          (case write_validation_report_to_txt e st1 of
             (Some ex, st2) \<Rightarrow> (Some ex, st2)
           | (None, st2) \<Rightarrow> write_unmatched_files_report e st2))"

section \<open>Observations and scenarios\<close>

text \<open>The input document of a transform command; the other commands transform nothing.\<close>

definition transform_source :: "command \<Rightarrow> path option" where
  "transform_source c = (case c of Saxon s x t \<Rightarrow> Some s | _ \<Rightarrow> None)"

text \<open>
  An environment for concrete runs: the behaviour of the external commands, the listing
  of the stylesheet directory and the sequence delivered by \<^verbatim>\<open>os.walk\<close> are given;
  directories can be created, report files can be opened, and the script lives in
  \<^verbatim>\<open>/opt/tool\<close>.
\<close>

definition scenario ::
  "(command list \<Rightarrow> command \<Rightarrow> outcome) \<Rightarrow> string list
     \<Rightarrow> (path \<times> string list \<times> string list) list \<Rightarrow> env" where
  "scenario run names w =
     \<lparr>run_process = run, listdir = (\<lambda>p. Inr names), walk = (\<lambda>r. w),
      mkdir_error = (\<lambda>p. None), open_error = (\<lambda>p. None),
      script_dir = [''/'', ''opt'', ''tool'']\<rparr>"

section \<open>Substring test and first match\<close>

lemma startswith_iff: "startswith s p \<longleftrightarrow> (\<exists>r. s = p @ r)"
  by (induction s p rule: startswith.induct) auto

lemma contains_Nil [simp]: "contains [] s"
  by (cases s) simp_all

text \<open>\<open>contains p s\<close> is Python's \<^verbatim>\<open>p in s\<close>: \<open>p\<close> occurs in \<open>s\<close> as a block.\<close>

lemma contains_iff: "contains p s \<longleftrightarrow> (\<exists>a b. s = a @ p @ b)"
proof (induction s)
  case Nil
  then show ?case by auto
next
  case (Cons c cs)
  show ?case
  proof
    assume "contains p (c # cs)"
    then consider "startswith (c # cs) p" | "contains p cs" by auto
    then show "\<exists>a b. c # cs = a @ p @ b"
    proof cases
      case 1
      then obtain r where "c # cs = p @ r" by (auto simp: startswith_iff)
      then have "c # cs = [] @ p @ r" by simp
      then show ?thesis by blast
    next
      case 2
      then obtain a b where "cs = a @ p @ b" using Cons.IH by auto
      then have "c # cs = (c # a) @ p @ b" by simp
      then show ?thesis by blast
    qed
  next
    assume "\<exists>a b. c # cs = a @ p @ b"
    then obtain a b where ab: "c # cs = a @ p @ b" by auto
    show "contains p (c # cs)"
    proof (cases a)
      case Nil
      then have "startswith (c # cs) p" using ab by (auto simp: startswith_iff)
      then show ?thesis by simp
    next
      case (Cons a0 as)
      then have "cs = as @ p @ b" using ab by simp
      then have "contains p cs" using Cons.IH by blast
      then show ?thesis by simp
    qed
  qed
qed

lemma loop_step:
  "find_matching_xslt_loop k (x # xs) =
     (if passes_test k x then Some x else find_matching_xslt_loop k xs)"
  by (simp add: passes_test_def Let_def)

lemma loop_None_iff:
  "find_matching_xslt_loop k xs = None \<longleftrightarrow> (\<forall>x\<in>set xs. \<not> passes_test k x)"
  by (induction xs) (simp_all add: loop_step del: find_matching_xslt_loop.simps(2))

lemma loop_Some_iff:
  "find_matching_xslt_loop k xs = Some x \<longleftrightarrow>
     (\<exists>pre post. xs = pre @ x # post \<and> passes_test k x \<and> (\<forall>y\<in>set pre. \<not> passes_test k y))"
proof (induction xs)
  case Nil
  then show ?case by simp
next
  case (Cons a xs)
  show ?case
  proof (cases "passes_test k a")
    case True
    have "(\<exists>pre post. a # xs = pre @ x # post \<and> passes_test k x \<and> (\<forall>y\<in>set pre. \<not> passes_test k y))
          \<longleftrightarrow> x = a"
    proof
      assume "\<exists>pre post. a # xs = pre @ x # post \<and> passes_test k x \<and> (\<forall>y\<in>set pre. \<not> passes_test k y)"
      then obtain pre post where p: "a # xs = pre @ x # post" "\<forall>y\<in>set pre. \<not> passes_test k y"
        by blast
      show "x = a"
      proof (cases pre)
        case Nil
        then show ?thesis using p by simp
      next
        case (Cons b bs)
        then have "b = a" using p by simp
        then show ?thesis using p True Cons by simp
      qed
    next
      assume "x = a"
      then have "a # xs = [] @ x # xs \<and> passes_test k x \<and> (\<forall>y\<in>set []. \<not> passes_test k y)"
        using True by simp
      then show "\<exists>pre post. a # xs = pre @ x # post \<and> passes_test k x \<and> (\<forall>y\<in>set pre. \<not> passes_test k y)"
        by blast
    qed
    then show ?thesis using True by (auto simp: loop_step simp del: find_matching_xslt_loop.simps(2))
  next
    case False
    have "(\<exists>pre post. a # xs = pre @ x # post \<and> passes_test k x \<and> (\<forall>y\<in>set pre. \<not> passes_test k y))
          \<longleftrightarrow> (\<exists>pre post. xs = pre @ x # post \<and> passes_test k x \<and> (\<forall>y\<in>set pre. \<not> passes_test k y))"
    proof
      assume "\<exists>pre post. a # xs = pre @ x # post \<and> passes_test k x \<and> (\<forall>y\<in>set pre. \<not> passes_test k y)"
      then obtain pre post where p: "a # xs = pre @ x # post" "passes_test k x" "\<forall>y\<in>set pre. \<not> passes_test k y"
        by blast
      show "\<exists>pre post. xs = pre @ x # post \<and> passes_test k x \<and> (\<forall>y\<in>set pre. \<not> passes_test k y)"
      proof (cases pre)
        case Nil
        then show ?thesis using p False by simp
      next
        case (Cons b bs)
        then have "xs = bs @ x # post" "\<forall>y\<in>set bs. \<not> passes_test k y" using p by simp_all
        then show ?thesis using p(2) by blast
      qed
    next
      assume "\<exists>pre post. xs = pre @ x # post \<and> passes_test k x \<and> (\<forall>y\<in>set pre. \<not> passes_test k y)"
      then obtain pre post where p: "xs = pre @ x # post" "passes_test k x" "\<forall>y\<in>set pre. \<not> passes_test k y"
        by blast
      then have "a # xs = (a # pre) @ x # post \<and> passes_test k x \<and> (\<forall>y\<in>set (a # pre). \<not> passes_test k y)"
        using False by simp
      then show "\<exists>pre post. a # xs = pre @ x # post \<and> passes_test k x \<and> (\<forall>y\<in>set pre. \<not> passes_test k y)"
        by blast
    qed
    then show ?thesis using False Cons.IH by (simp add: loop_step del: find_matching_xslt_loop.simps(2))
  qed
qed

lemma digits_only_clean: "\<forall>c\<in>set (stem f). is_digit c \<Longrightarrow> clean_prefix f = []"
  by (simp add: clean_prefix_def re_sub_digits_def strip_def upper_def filter_empty_conv Let_def)

lemma no_status_no_match:
  "\<not> contains ''STATUS'' (upper k) \<Longrightarrow> find_matching_xslt_loop k xs = None"
  by (simp add: loop_None_iff passes_test_def)

text \<open>
  What the test of \<^verbatim>\<open>XSLTTransform.py\<close> accepts, for one stylesheet: the key occurs in
  the candidate and \<^verbatim>\<open>STATUS\<close> occurs in both. A key without \<^verbatim>\<open>STATUS\<close> matches nothing.
\<close>

lemma single_stylesheet_match:
  "find_matching_xslt f [x] = Some x \<longleftrightarrow>
     contains (clean_prefix f) (upper (strip x)) \<and>
     contains ''STATUS'' (upper (clean_prefix f)) \<and> contains ''STATUS'' (upper (strip x))"
  by (simp add: find_matching_xslt_def Let_def)

section \<open>Claims about the matcher\<close>

text \<open>
  Claim C1. The claim reads the guard as an equivalence: \<^verbatim>\<open>STATUS\<close> occurs in the key if
  and only if it occurs in the candidate. The source computes
  \<^verbatim>\<open>statusExist = "STATUS" in prefix_clean.upper() and "STATUS" in xslt_upper\<close>, a
  conjunction, under a comment that asks for "both have status or both don't". For
  \<^verbatim>\<open>Invoice.xml\<close> and \<^verbatim>\<open>INVOICE.xslt\<close> the key \<^verbatim>\<open>INVOICE\<close> occurs in the candidate and
  \<^verbatim>\<open>STATUS\<close> occurs in neither, so the claim's conditions hold, and the matcher returns
  no match.
\<close>

theorem guard_rejects_pair_without_status:
  "clean_prefix ''Invoice.xml'' = ''INVOICE'' \<and>
   contains ''INVOICE'' (upper ''INVOICE.xslt'') \<and>
   (contains ''STATUS'' ''INVOICE'' \<longleftrightarrow> contains ''STATUS'' (upper ''INVOICE.xslt'')) \<and>
   find_matching_xslt ''Invoice.xml'' [''INVOICE.xslt''] = None"
  by code_simp

text \<open>
  Claim C2. The two examples of the claim, on both matchers: \<^verbatim>\<open>XSLTTransform.py\<close> returns
  no match for either (the key \<^verbatim>\<open>INVOICE\<close> has no \<^verbatim>\<open>STATUS\<close>, the defect of C1), while
  the matcher of \<^verbatim>\<open>xsltTransformerandScraper.py\<close> returns \<^verbatim>\<open>INVOICE.xslt\<close> for both.
\<close>

theorem invoice_examples_on_both_matchers:
  "find_matching_xslt ''Invoice123.xml'' [''INVOICE.xslt''] = None \<and>
   find_matching_xslt ''invoice.xml'' [''INVOICE.xslt''] = None \<and>
   find_matching_xslt_scraper ''Invoice123.xml'' [''INVOICE.xslt''] = Some ''INVOICE.xslt'' \<and>
   find_matching_xslt_scraper ''invoice.xml'' [''INVOICE.xslt''] = Some ''INVOICE.xslt''"
  by code_simp

text \<open>
  Claim C4. The guard on the examples of the specification, in \<^verbatim>\<open>XSLTTransform.py\<close>:
  \<^verbatim>\<open>Message.xml\<close> does not match \<^verbatim>\<open>MessageStatus.xslt\<close>, and \<^verbatim>\<open>MessageStatus.xml\<close>
  matches it.
\<close>

theorem status_guard_examples:
  "find_matching_xslt ''Message.xml'' [''MessageStatus.xslt''] = None \<and>
   find_matching_xslt ''MessageStatus.xml'' [''MessageStatus.xslt''] = Some ''MessageStatus.xslt''"
  by code_simp

text \<open>
  The matcher of \<^verbatim>\<open>xsltTransformerandScraper.py\<close> has no guard, and accepts the first
  of the two pairs.
\<close>

lemma scraper_has_no_guard:
  "find_matching_xslt_scraper ''Message.xml'' [''MessageStatus.xslt''] = Some ''MessageStatus.xslt''"
  by code_simp

text \<open>
  The loop returns the first stylesheet, in the order of the list, that passes the test
  of its own \<^verbatim>\<open>if\<close>, and \<open>None\<close> when no stylesheet passes it.
\<close>

lemma loop_returns_first_passing:
  "find_matching_xslt f [] = None \<and>
   (find_matching_xslt f xs = None \<longleftrightarrow> (\<forall>x\<in>set xs. \<not> passes_test (clean_prefix f) x)) \<and>
   (find_matching_xslt f xs = Some x \<longleftrightarrow>
      (\<exists>pre post. xs = pre @ x # post \<and> passes_test (clean_prefix f) x \<and>
         (\<forall>y\<in>set pre. \<not> passes_test (clean_prefix f) y)))"
  by (simp add: find_matching_xslt_def loop_None_iff loop_Some_iff)

text \<open>
  Claim C5. The claim says that the matcher returns the first stylesheet that satisfies
  the match conditions: the key occurs in the candidate, and \<^verbatim>\<open>STATUS\<close> occurs in the
  key if and only if it occurs in the candidate. For \<^verbatim>\<open>Invoice.xml\<close> and the list
  \<^verbatim>\<open>Other.xslt\<close>, \<^verbatim>\<open>INVOICE.xslt\<close> the first stylesheet does not contain the key and
  the second satisfies both conditions, so the claim asks for \<^verbatim>\<open>INVOICE.xslt\<close>. The
  matcher of \<^verbatim>\<open>XSLTTransform.py\<close> returns no match, because its test asks for
  \<^verbatim>\<open>STATUS\<close> in both (the defect of C1); the matcher of
  \<^verbatim>\<open>xsltTransformerandScraper.py\<close> returns \<^verbatim>\<open>INVOICE.xslt\<close>.
\<close>

theorem first_satisfying_stylesheet_not_returned:
  "\<not> contains (clean_prefix ''Invoice.xml'') (upper (strip ''Other.xslt'')) \<and>
   contains (clean_prefix ''Invoice.xml'') (upper (strip ''INVOICE.xslt'')) \<and>
   (contains ''STATUS'' (clean_prefix ''Invoice.xml'')
      \<longleftrightarrow> contains ''STATUS'' (upper (strip ''INVOICE.xslt''))) \<and>
   find_matching_xslt ''Invoice.xml'' [''Other.xslt'', ''INVOICE.xslt''] = None \<and>
   find_matching_xslt_scraper ''Invoice.xml'' [''Other.xslt'', ''INVOICE.xslt'']
     = Some ''INVOICE.xslt''"
  by code_simp

text \<open>The loop of \<^verbatim>\<open>xsltTransformerandScraper.py\<close> returns the first stylesheet that
  contains the key, in the same way.\<close>

lemma scraper_first_match:
  "find_matching_xslt_scraper f xs = List.find (\<lambda>x. contains (clean_prefix f) (upper (strip x))) xs"
  unfolding find_matching_xslt_scraper_def
  by (induction xs) (simp_all add: Let_def)

text \<open>
  Claim C9. In \<^verbatim>\<open>XSLTTransform.py\<close>, a file name whose stem consists of digits only has
  the empty key, and \<^verbatim>\<open>find_matching_xslt\<close> returns \<^verbatim>\<open>None\<close> for it on every
  stylesheet list, although the empty key occurs in every candidate.
\<close>

theorem digits_only_stem_never_matches:
  "\<forall>c\<in>set (stem f). is_digit c \<Longrightarrow> find_matching_xslt f xs = None"
  by (simp add: find_matching_xslt_def digits_only_clean no_status_no_match upper_def)

theorem digits_only_stem_never_matches_witness:
  "stem ''2024.xml'' = ''2024'' \<and>
   clean_prefix ''2024.xml'' = [] \<and>
   contains (clean_prefix ''2024.xml'') (upper (strip ''STATUS.xslt'')) \<and>
   find_matching_xslt ''2024.xml'' [''STATUS.xslt'', ''Invoice.xsl''] = None"
proof -
  have s: "stem ''2024.xml'' = ''2024''"
    by (simp add: stem_def path_name_def rfind_def)
  have h: "\<forall>c\<in>set (stem ''2024.xml''). is_digit c"
    by (simp add: s is_digit_def)
  have k: "clean_prefix ''2024.xml'' = []"
    by (rule digits_only_clean [OF h])
  have c: "contains (clean_prefix ''2024.xml'') (upper (strip ''STATUS.xslt''))"
    by (simp add: k)
  show ?thesis
    using s k c digits_only_stem_never_matches [OF h, of "[''STATUS.xslt'', ''Invoice.xsl'']"]
    by blast
qed

section \<open>What each step does to the state\<close>

text \<open>
  Every external command is appended to \<open>calls\<close>; nothing but the walker's unmatched
  branch touches \<open>unmatched_files\<close>, and nothing but the reporter touches \<open>written\<close>.
\<close>

lemma subprocess_run_snd:
  "snd (subprocess_run e cmd chk t st) = st\<lparr>calls := calls st @ [cmd]\<rparr>"
  by (simp add: subprocess_run_def Let_def split: outcome.splits option.splits)

lemma subprocess_run_state:
  "subprocess_run e cmd chk t st = (r, st') \<Longrightarrow> st' = st\<lparr>calls := calls st @ [cmd]\<rparr>"
  using subprocess_run_snd [of e cmd chk t st] by simp

lemma format_except_state:
  "format_except f ex st = (r, st') \<Longrightarrow>
     unmatched_files st' = unmatched_files st \<and> validation_errors st' = validation_errors st \<and>
     calls st' = calls st \<and> made_dirs st' = made_dirs st \<and> written st' = written st"
  by (auto simp: format_except_def logging_error_def split: exn.splits sum.splits)

lemma process_except_state:
  "process_except f ex st = (r, st') \<Longrightarrow>
     unmatched_files st' = unmatched_files st \<and> validation_errors st' = validation_errors st \<and>
     calls st' = calls st \<and> made_dirs st' = made_dirs st \<and> written st' = written st"
  by (auto simp: process_except_def logging_error_def split: exn.splits sum.splits)

lemma format_state:
  assumes "format_with_xmllint e f st = (r, st')"
  shows "unmatched_files st' = unmatched_files st \<and> written st' = written st \<and>
         (\<forall>c\<in>set (calls st'). c \<in> set (calls st) \<or> transform_source c = None)"
  using assms
  by (auto simp: format_with_xmllint_def Let_def transform_source_def
           dest!: subprocess_run_state format_except_state
           split: prod.splits sum.splits)

lemma validate_state:
  assumes "validate_xml_schema e f s st = (r, st')"
  shows "unmatched_files st' = unmatched_files st \<and> written st' = written st \<and>
         (\<forall>c\<in>set (calls st'). c \<in> set (calls st) \<or> transform_source c = None)"
  using assms
  by (auto simp: validate_xml_schema_def validate_except_def Let_def transform_source_def
           dest!: subprocess_run_state
           split: prod.splits sum.splits if_splits)

lemma process_file_state:
  assumes "process_file e i out x s st = (r, st')"
  shows "unmatched_files st' = unmatched_files st \<and> written st' = written st \<and>
         (\<forall>c\<in>set (calls st'). c \<in> set (calls st) \<or> transform_source c = None \<or> transform_source c = Some i)"
proof -
  obtain r1 st1 where s1: "subprocess_run e (Saxon i x out) True (Some 30) st = (r1, st1)"
    by (cases "subprocess_run e (Saxon i x out) True (Some 30) st")
  have st1: "unmatched_files st1 = unmatched_files st" "written st1 = written st"
       "\<forall>c\<in>set (calls st1). c \<in> set (calls st) \<or> transform_source c = Some i"
    using subprocess_run_state [OF s1] by (auto simp: transform_source_def)
  show ?thesis
  proof (cases r1)
    case (Inl ex)
    then have "process_except i ex st1 = (r, st')" using assms s1 by (simp add: process_file_def)
    from process_except_state [OF this] st1 show ?thesis by auto
  next
    case (Inr v)
    obtain r2 st2 where s2: "format_with_xmllint e out st1 = (r2, st2)"
      by (cases "format_with_xmllint e out st1")
    note f2 = format_state [OF s2]
    show ?thesis
    proof (cases r2)
      case (Some ex)
      then have "process_except i ex st2 = (r, st')" using assms s1 s2 Inr by (simp add: process_file_def)
      from process_except_state [OF this] st1 f2 show ?thesis by auto
    next
      case None
      show ?thesis
      proof (cases s)
        case nos: None
        then have "st' = st2" using assms s1 s2 Inr None by (simp add: process_file_def)
        then show ?thesis using st1 f2 by auto
      next
        case (Some sp)
        obtain r3 st3 where s3: "validate_xml_schema e out sp st2 = (r3, st3)"
          by (cases "validate_xml_schema e out sp st2")
        note v3 = validate_state [OF s3]
        show ?thesis
        proof (cases r3)
          case None3: None
          then have "st' = st3" using assms s1 s2 s3 Inr None Some by (simp add: process_file_def)
          then show ?thesis using st1 f2 v3 by auto
        next
          case (Some ex)
          then have "process_except i ex st3 = (r, st')"
            using assms s1 s2 s3 Inr None \<open>s = Some sp\<close> by (simp add: process_file_def)
          from process_except_state [OF this] st1 f2 v3 show ?thesis by auto
        qed
      qed
    qed
  qed
qed

lemma ensure_output_path_state:
  "ensure_output_path e i root mfn st = (r, st') \<Longrightarrow>
     unmatched_files st' = unmatched_files st \<and> written st' = written st \<and> calls st' = calls st"
  by (auto simp: ensure_output_path_def Let_def split: option.splits)

lemma process_entry_state:
  assumes "process_entry e root xd mfn s xs d f st = (r, st')"
  shows "unmatched_files st' = unmatched_files st @
           (if endswith (lower f) ''.xml'' \<and> falsy (find_matching_xslt f xs)
            then [path_str (joinpath d f)] else [])"
    and "written st' = written st"
    and "\<forall>c\<in>set (calls st'). c \<in> set (calls st) \<or> transform_source c = None \<or>
           (transform_source c = Some (joinpath d f) \<and> \<not> falsy (find_matching_xslt f xs))"
proof -
  have "unmatched_files st' = unmatched_files st @
           (if endswith (lower f) ''.xml'' \<and> falsy (find_matching_xslt f xs)
            then [path_str (joinpath d f)] else []) \<and>
        written st' = written st \<and>
        (\<forall>c\<in>set (calls st'). c \<in> set (calls st) \<or> transform_source c = None \<or>
           (transform_source c = Some (joinpath d f) \<and> \<not> falsy (find_matching_xslt f xs)))"
  proof (cases "endswith (lower f) ''.xml''")
    case False
    then show ?thesis using assms by (auto simp: process_entry_def)
  next
    case xml: True
    show ?thesis
    proof (cases "falsy (find_matching_xslt f xs)")
      case True
      then show ?thesis using assms xml
        by (auto simp: process_entry_def Let_def logging_error_def)
    next
      case nf: False
      obtain r1 st1 where s1: "ensure_output_path e (joinpath d f) root mfn st = (r1, st1)"
        by (cases "ensure_output_path e (joinpath d f) root mfn st")
      note e1 = ensure_output_path_state [OF s1]
      show ?thesis
      proof (cases r1)
        case (Inl ex)
        then have "st' = st1" using assms xml nf s1 by (simp add: process_entry_def Let_def)
        then show ?thesis using e1 nf by auto
      next
        case (Inr out)
        obtain r2 st2 where s2:
          "process_file e (joinpath d f) out (joinpath xd (the (find_matching_xslt f xs))) s st1 = (r2, st2)"
          by (cases "process_file e (joinpath d f) out (joinpath xd (the (find_matching_xslt f xs))) s st1")
        note p2 = process_file_state [OF s2]
        have "st' = st2" using assms xml nf s1 s2 Inr
          by (cases r2) (simp_all add: process_entry_def Let_def)
        then show ?thesis using e1 p2 nf by auto
      qed
    qed
  qed
  then show "unmatched_files st' = unmatched_files st @
           (if endswith (lower f) ''.xml'' \<and> falsy (find_matching_xslt f xs)
            then [path_str (joinpath d f)] else [])"
    and "written st' = written st"
    and "\<forall>c\<in>set (calls st'). c \<in> set (calls st) \<or> transform_source c = None \<or>
           (transform_source c = Some (joinpath d f) \<and> \<not> falsy (find_matching_xslt f xs))"
    by blast+
qed

lemma traverse_files_unmatched:
  "traverse_files e root xd mfn s xs d files st = (None, st') \<Longrightarrow>
     unmatched_files st' = unmatched_files st @
       map (\<lambda>f. path_str (joinpath d f))
         (filter (\<lambda>f. endswith (lower f) ''.xml'' \<and> falsy (find_matching_xslt f xs)) files)"
proof (induction files arbitrary: st)
  case Nil
  then show ?case by simp
next
  case (Cons f files)
  obtain r1 st1 where s1: "process_entry e root xd mfn s xs d f st = (r1, st1)"
    by (cases "process_entry e root xd mfn s xs d f st")
  with Cons.prems have r1: "r1 = None" and rest: "traverse_files e root xd mfn s xs d files st1 = (None, st')"
    by (auto split: option.splits)
  from Cons.IH [OF rest] process_entry_state(1) [OF s1] show ?case by simp
qed

lemma traverse_files_state:
  "traverse_files e root xd mfn s xs d files st = (r, st') \<Longrightarrow>
     written st' = written st \<and>
     (\<forall>c\<in>set (calls st'). c \<in> set (calls st) \<or> transform_source c = None \<or>
        (\<exists>f\<in>set files. transform_source c = Some (joinpath d f) \<and> \<not> falsy (find_matching_xslt f xs)))"
proof (induction files arbitrary: st)
  case Nil
  then show ?case by simp
next
  case (Cons f files)
  obtain r1 st1 where s1: "process_entry e root xd mfn s xs d f st = (r1, st1)"
    by (cases "process_entry e root xd mfn s xs d f st")
  note p1 = process_entry_state(2,3) [OF s1]
  show ?case
  proof (cases r1)
    case (Some ex)
    then have "st' = st1" using Cons.prems s1 by simp
    then show ?thesis using p1 by auto
  next
    case None
    then have rest: "traverse_files e root xd mfn s xs d files st1 = (r, st')"
      using Cons.prems s1 by simp
    from Cons.IH [OF rest] p1 show ?thesis by fastforce
  qed
qed

lemma traverse_dirs_unmatched:
  "traverse_dirs e root xd mfn s xs w st = (None, st') \<Longrightarrow>
     unmatched_files st' = unmatched_files st @
       concat (map (\<lambda>(d, subs, files).
                 if mfn \<in> set d then []
                 else map (\<lambda>f. path_str (joinpath d f))
                        (filter (\<lambda>f. endswith (lower f) ''.xml'' \<and> falsy (find_matching_xslt f xs)) files)) w)"
proof (induction w arbitrary: st)
  case Nil
  then show ?case by simp
next
  case (Cons t w)
  obtain d subs files where t: "t = (d, subs, files)" by (cases t)
  show ?case
  proof (cases "mfn \<in> set d")
    case True
    then show ?thesis using Cons t by simp
  next
    case False
    obtain r1 st1 where s1: "traverse_files e root xd mfn s xs d files st = (r1, st1)"
      by (cases "traverse_files e root xd mfn s xs d files st")
    with Cons.prems t False have r1: "r1 = None"
      and rest: "traverse_dirs e root xd mfn s xs w st1 = (None, st')"
      by (auto split: option.splits)
    from Cons.IH [OF rest] traverse_files_unmatched [OF s1 [unfolded r1]] t False
    show ?thesis by simp
  qed
qed

lemma traverse_dirs_state:
  "traverse_dirs e root xd mfn s xs w st = (r, st') \<Longrightarrow>
     written st' = written st \<and>
     (\<forall>c\<in>set (calls st'). c \<in> set (calls st) \<or> transform_source c = None \<or>
        (\<exists>(d, subs, files)\<in>set w. mfn \<notin> set d \<and>
           (\<exists>f\<in>set files. transform_source c = Some (joinpath d f) \<and> \<not> falsy (find_matching_xslt f xs))))"
proof (induction w arbitrary: st)
  case Nil
  then show ?case by simp
next
  case (Cons t w)
  obtain d subs files where t: "t = (d, subs, files)" by (cases t)
  show ?case
  proof (cases "mfn \<in> set d")
    case True
    then have "traverse_dirs e root xd mfn s xs w st = (r, st')" using Cons.prems t by simp
    from Cons.IH [OF this] show ?thesis by fastforce
  next
    case False
    obtain r1 st1 where s1: "traverse_files e root xd mfn s xs d files st = (r1, st1)"
      by (cases "traverse_files e root xd mfn s xs d files st")
    note f1 = traverse_files_state [OF s1]
    show ?thesis
    proof (cases r1)
      case (Some ex)
      then have "st' = st1" using Cons.prems t False s1 by simp
      then show ?thesis using f1 t False by fastforce
    next
      case None
      then have rest: "traverse_dirs e root xd mfn s xs w st1 = (r, st')"
        using Cons.prems t False s1 by simp
      from Cons.IH [OF rest] f1 t False show ?thesis by fastforce
    qed
  qed
qed

lemma traverse_dirs_skip:
  "traverse_dirs e root xd mfn s xs w st =
   traverse_dirs e root xd mfn s xs (filter (\<lambda>(d, subs, files). mfn \<notin> set d) w) st"
proof (induction w arbitrary: st)
  case Nil
  then show ?case by simp
next
  case (Cons t w)
  obtain d subs files where t: "t = (d, subs, files)" by (cases t)
  show ?case using Cons.IH t by (simp split: prod.splits option.splits)
qed

lemma map_of_dict_set: "map_of (dict_set k v d) k = Some v"
  by (induction d) auto

lemma write_validation_report_state:
  "write_validation_report_to_txt e st = (r, st') \<Longrightarrow>
     unmatched_files st' = unmatched_files st \<and> calls st' = calls st"
  by (auto simp: write_validation_report_to_txt_def Let_def split: if_splits option.splits)

lemma write_unmatched_report_state:
  "write_unmatched_files_report e st = (r, st') \<Longrightarrow>
     unmatched_files st' = unmatched_files st \<and> calls st' = calls st"
  by (auto simp: write_unmatched_files_report_def Let_def split: if_splits option.splits)

lemma write_unmatched_report_content:
  assumes "write_unmatched_files_report e st = (None, st')" and "u \<in> set (unmatched_files st)"
  shows "\<exists>content. map_of (written st') (joinpath (script_dir e) ''unmatched_files_report.txt'')
           = Some content \<and> u @ [CHR 0x0A] \<in> set content"
proof -
  from assms(2) have ne: "unmatched_files st \<noteq> []" by auto
  with assms(1) have "written st' = dict_set (joinpath (script_dir e) ''unmatched_files_report.txt'')
         ([('' Unmatched XML Files (no matching XSLT):'' @ [CHR 0x0A, CHR 0x0A])]
          @ map (\<lambda>filepath. filepath @ [CHR 0x0A]) (unmatched_files st)) (written st)"
    by (auto simp: write_unmatched_files_report_def Let_def split: option.splits)
  then show ?thesis using assms(2) by (simp add: map_of_dict_set)
qed

lemma joinpath_inject: "joinpath d f = joinpath d' f' \<longleftrightarrow> d = d' \<and> f = f'"
  by (simp add: joinpath_def)

lemma subprocess_run_walk: "subprocess_run (e\<lparr>walk := w\<rparr>) = subprocess_run e"
  by (intro ext) (simp add: subprocess_run_def)

lemma format_walk: "format_with_xmllint (e\<lparr>walk := w\<rparr>) = format_with_xmllint e"
  by (intro ext) (simp add: format_with_xmllint_def subprocess_run_walk Let_def split: prod.splits sum.splits)

lemma validate_walk: "validate_xml_schema (e\<lparr>walk := w\<rparr>) = validate_xml_schema e"
  by (intro ext) (simp add: validate_xml_schema_def subprocess_run_walk split: prod.splits sum.splits)

lemma process_file_walk: "process_file (e\<lparr>walk := w\<rparr>) = process_file e"
  by (intro ext)
     (simp add: process_file_def subprocess_run_walk format_walk validate_walk
           split: prod.splits sum.splits option.splits)

lemma ensure_output_path_walk: "ensure_output_path (e\<lparr>walk := w\<rparr>) = ensure_output_path e"
  by (intro ext) (simp add: ensure_output_path_def Let_def split: option.splits)

lemma process_entry_walk: "process_entry (e\<lparr>walk := w\<rparr>) = process_entry e"
  by (intro ext)
     (simp add: process_entry_def process_file_walk ensure_output_path_walk Let_def
           split: prod.splits sum.splits)

lemma traverse_files_walk:
  "traverse_files (e\<lparr>walk := w\<rparr>) root xd mfn s xs d files st = traverse_files e root xd mfn s xs d files st"
  by (induction files arbitrary: st) (simp_all add: process_entry_walk split: prod.splits option.splits)

lemma traverse_dirs_walk:
  "traverse_dirs (e\<lparr>walk := w\<rparr>) root xd mfn s xs ds st = traverse_dirs e root xd mfn s xs ds st"
proof (induction ds arbitrary: st)
  case Nil
  then show ?case by simp
next
  case (Cons t ds)
  obtain d subs files where t: "t = (d, subs, files)" by (cases t)
  show ?case using Cons.IH t
    by (simp add: traverse_files_walk split: prod.splits option.splits)
qed

lemma main_script_calls:
  "calls (snd (main_script e root xd s mfn)) =
   calls (snd (traverse_and_process e root xd mfn s initial_state))"
proof -
  obtain r1 st1 where tp: "traverse_and_process e root xd mfn s initial_state = (r1, st1)"
    by (cases "traverse_and_process e root xd mfn s initial_state")
  show ?thesis
  proof (cases r1)
    case (Some ex)
    then show ?thesis using tp by (simp add: main_script_def)
  next
    case None
    obtain r2 st2 where v: "write_validation_report_to_txt e st1 = (r2, st2)"
      by (cases "write_validation_report_to_txt e st1")
    show ?thesis
    proof (cases r2)
      case (Some ex)
      then show ?thesis using tp None v write_validation_report_state [OF v]
        by (simp add: main_script_def)
    next
      case n2: None
      obtain r3 st3 where w: "write_unmatched_files_report e st2 = (r3, st3)"
        by (cases "write_unmatched_files_report e st2")
      from write_unmatched_report_state [OF w] write_validation_report_state [OF v]
      show ?thesis using tp None n2 v w by (simp add: main_script_def)
    qed
  qed
qed

lemma traverse_and_process_calls:
  assumes "c \<in> set (calls (snd (traverse_and_process e root xd mfn s initial_state)))"
  shows "transform_source c = None \<or>
         (\<exists>d f. mfn \<notin> set d \<and> transform_source c = Some (joinpath d f))"
proof (cases "load_xslt_files e xd")
  case (Inl ex)
  then show ?thesis using assms by (simp add: traverse_and_process_def initial_state_def)
next
  case (Inr xs)
  obtain r1 st1 where t: "traverse_dirs e root xd mfn s xs (walk e root) initial_state = (r1, st1)"
    by (cases "traverse_dirs e root xd mfn s xs (walk e root) initial_state")
  then have "c \<in> set (calls st1)" using assms Inr by (simp add: traverse_and_process_def)
  with traverse_dirs_state [OF t] show ?thesis
    by (fastforce simp: initial_state_def)
qed

lemma validate_never_raises: "validate_xml_schema e f sp st = (r, st') \<Longrightarrow> r = None"
  by (auto simp: validate_xml_schema_def validate_except_def Let_def
           split: prod.splits sum.splits if_splits)

lemma format_raises_only_on_launch_or_decoding:
  assumes "format_with_xmllint e f st = (Some ex, st')"
  shows "(\<exists>h c msg. run_process e h c = LaunchError msg) \<or>
         (\<exists>h c secs rc out msg. run_process e h c = Exited secs rc out (Undecodable msg))"
  using assms
  by (auto simp: format_with_xmllint_def Let_def format_except_def subprocess_run_def decode_def
           split: prod.splits sum.splits exn.splits outcome.splits captured.splits if_splits)

text \<open>
  When the transform exits with code zero in time, every command can be started and
  the standard error of every command decodes, \<^verbatim>\<open>process_file\<close> returns \<^verbatim>\<open>True\<close>,
  whatever the exit codes of the formatter and the validator are.
\<close>

lemma process_file_true_when_commands_start:
  assumes saxon: "run_process e (calls st) (Saxon i x out) = Exited secs 0 so se" "secs \<le> 30"
    and starts: "\<forall>h c msg. run_process e h c \<noteq> LaunchError msg"
    and decodes: "\<forall>h c secs rc out msg. run_process e h c \<noteq> Exited secs rc out (Undecodable msg)"
  shows "fst (process_file e i out x s st) = Inr True"
proof -
  obtain st1 where s1: "subprocess_run e (Saxon i x out) True (Some 30) st = (Inr (0, so, se), st1)"
    using saxon by (simp add: subprocess_run_def Let_def)
  obtain r2 st2 where s2: "format_with_xmllint e out st1 = (r2, st2)"
    by (cases "format_with_xmllint e out st1")
  have r2: "r2 = None"
    using format_raises_only_on_launch_or_decoding [of e out st1 _ st2] s2 starts decodes
    by (cases r2) auto
  show ?thesis
  proof (cases s)
    case None
    then show ?thesis using s1 s2 r2 by (simp add: process_file_def)
  next
    case (Some sp)
    obtain r3 st3 where s3: "validate_xml_schema e out sp st2 = (r3, st3)"
      by (cases "validate_xml_schema e out sp st2")
    from validate_never_raises [OF s3] have "r3 = None" .
    then show ?thesis using s1 s2 r2 s3 Some by (simp add: process_file_def)
  qed
qed

section \<open>Claims about the transform step and the validator\<close>

text \<open>
  Claim C3. The claim treats a timeout of the transform like a non-zero exit: the file is
  skipped, the error is recorded, the run continues. In the source
  \<^verbatim>\<open>subprocess.run(..., timeout=30)\<close> raises \<^verbatim>\<open>TimeoutExpired\<close>, and the handler of
  \<^verbatim>\<open>process_file\<close> takes \<^verbatim>\<open>CalledProcessError\<close> only. Two runs over the files
  \<^verbatim>\<open>Status1.xml\<close> and \<^verbatim>\<open>Status2.xml\<close>: when the transform needs 31 seconds, the
  exception leaves \<^verbatim>\<open>traverse_and_process\<close> at the first file, nothing is logged and
  the second file is never transformed; when the transform exits with code 2, both files
  are tried, both failures are logged and the walk ends normally.
\<close>

theorem timeout_aborts_the_run:
  "traverse_and_process
     (scenario (\<lambda>h c. Exited 31 0 (Decodes []) (Decodes [])) [''Status.xslt'']
        [([''/'', ''in''], [], [''Status1.xml'', ''Status2.xml''])])
     [''/'', ''in''] [''/'', ''xslt''] ''Modified'' None initial_state
   = (Some TimeoutExpired,
      initial_state
        \<lparr>calls := [Saxon [''/'', ''in'', ''Status1.xml''] [''/'', ''xslt'', ''Status.xslt'']
                     [''/'', ''Modified'', ''Status1.xml'']],
         made_dirs := [[''/'', ''Modified'']]\<rparr>) \<and>
   traverse_and_process
     (scenario (\<lambda>h c. Exited 1 2 (Decodes []) (Decodes ''boom'')) [''Status.xslt'']
        [([''/'', ''in''], [], [''Status1.xml'', ''Status2.xml''])])
     [''/'', ''in''] [''/'', ''xslt''] ''Modified'' None initial_state
   = (None,
      initial_state
        \<lparr>error_log := [''/in/Status1.xml - boom'', ''/in/Status2.xml - boom''],
         calls := [Saxon [''/'', ''in'', ''Status1.xml''] [''/'', ''xslt'', ''Status.xslt'']
                     [''/'', ''Modified'', ''Status1.xml''],
                   Saxon [''/'', ''in'', ''Status2.xml''] [''/'', ''xslt'', ''Status.xslt'']
                     [''/'', ''Modified'', ''Status2.xml'']],
         made_dirs := [[''/'', ''Modified''], [''/'', ''Modified'']]\<rparr>)"
  by code_simp




text \<open>
  Claim C10. The claim says that \<^verbatim>\<open>process_file\<close> returns \<^verbatim>\<open>True\<close> whenever the
  transform exits with code zero, whatever happens in the formatter and the validator.
  The handler of \<^verbatim>\<open>format_with_xmllint\<close> takes \<^verbatim>\<open>CalledProcessError\<close> only (the
  validator's takes every \<^verbatim>\<open>Exception\<close>), so when \<^verbatim>\<open>xmllint\<close> cannot be started the
  \<^verbatim>\<open>OSError\<close> leaves the formatter and \<^verbatim>\<open>process_file\<close>, which returns nothing.
  The second run shows what the claim describes: formatter and validator both exit with
  code 1, both failures are recorded, and the result is \<^verbatim>\<open>True\<close>.
\<close>

theorem formatter_launch_failure_leaves_process_file:
  "process_file
     (scenario (\<lambda>h c. case c of XmllintFormat f t \<Rightarrow> LaunchError ''No such file or directory: xmllint''
                               | _ \<Rightarrow> Exited 1 0 (Decodes []) (Decodes [])) [] [])
     [''/'', ''in'', ''Status1.xml''] [''/'', ''Modified'', ''Status1.xml'']
     [''/'', ''xslt'', ''Status.xslt''] None initial_state
   = (Inl (OSError ''No such file or directory: xmllint''),
      initial_state
        \<lparr>calls := [Saxon [''/'', ''in'', ''Status1.xml''] [''/'', ''xslt'', ''Status.xslt'']
                     [''/'', ''Modified'', ''Status1.xml''],
                   XmllintFormat [''/'', ''Modified'', ''Status1.xml''] [''/'', ''Modified'', ''temp.xml'']]\<rparr>) \<and>
   process_file
     (scenario (\<lambda>h c. case c of Saxon s x t \<Rightarrow> Exited 1 0 (Decodes []) (Decodes []) | _ \<Rightarrow> Exited 1 1 (Decodes []) (Decodes ''bad'')) [] [])
     [''/'', ''in'', ''Status1.xml''] [''/'', ''Modified'', ''Status1.xml'']
     [''/'', ''xslt'', ''Status.xslt''] (Some [''/'', ''Message.xsd'']) initial_state
   = (Inr True,
      initial_state
        \<lparr>validation_errors := [(''/Modified/Status1.xml'', ''bad'')],
         error_log := [''xmllint formatting failed for /Modified/Status1.xml: bad''],
         calls := [Saxon [''/'', ''in'', ''Status1.xml''] [''/'', ''xslt'', ''Status.xslt'']
                     [''/'', ''Modified'', ''Status1.xml''],
                   XmllintFormat [''/'', ''Modified'', ''Status1.xml''] [''/'', ''Modified'', ''temp.xml''],
                   XmllintSchema [''/'', ''Message.xsd''] [''/'', ''Modified'', ''Status1.xml'']]\<rparr>)"
  by code_simp

section \<open>Claims about the tree walker\<close>

text \<open>
  Take an XML file that the walker visits (it is listed in a directory that is not
  skipped) and for which the matcher finds no stylesheet. No transform is ever run on
  it. If the script reaches its end, the path of the file is in the list of unmatched
  files and the unmatched-files report has a line with that path.
\<close>

lemma unmatched_file_reported_when_script_ends:
  assumes run: "main_script e root_dir xslt_dir schema_path mfn = (r, st')"
    and xs: "load_xslt_files e xslt_dir = Inr xslt_files"
    and d: "(current_path, subdirs, files) \<in> set (walk e root_dir)" "mfn \<notin> set current_path"
    and f: "file \<in> set files" "endswith (lower file) ''.xml''"
    and nomatch: "find_matching_xslt file xslt_files = None"
  shows "(\<forall>c\<in>set (calls st'). transform_source c \<noteq> Some (joinpath current_path file)) \<and>
         (r = None \<longrightarrow>
            path_str (joinpath current_path file) \<in> set (unmatched_files st') \<and>
            (\<exists>content.
               map_of (written st') (joinpath (script_dir e) ''unmatched_files_report.txt'') = Some content \<and>
               path_str (joinpath current_path file) @ [CHR 0x0A] \<in> set content))"
proof -
  let ?p = "joinpath current_path file"
  obtain r1 st1 where t: "traverse_dirs e root_dir xslt_dir mfn schema_path xslt_files (walk e root_dir) initial_state = (r1, st1)"
    by (cases "traverse_dirs e root_dir xslt_dir mfn schema_path xslt_files (walk e root_dir) initial_state")
  then have tp: "traverse_and_process e root_dir xslt_dir mfn schema_path initial_state = (r1, st1)"
    using xs by (simp add: traverse_and_process_def)
  have fal: "falsy (find_matching_xslt file xslt_files)" using nomatch by (simp add: falsy_def)
  have calls1: "\<forall>c\<in>set (calls st1). transform_source c \<noteq> Some ?p"
  proof
    fix c assume c: "c \<in> set (calls st1)"
    from traverse_dirs_state [OF t] c
    consider "c \<in> set (calls initial_state)" | "transform_source c = None"
      | d' f' where "transform_source c = Some (joinpath d' f')"
          "\<not> falsy (find_matching_xslt f' xslt_files)"
      by fastforce
    then show "transform_source c \<noteq> Some ?p"
    proof cases
      case 1
      then show ?thesis by (simp add: initial_state_def)
    next
      case 2
      then show ?thesis by simp
    next
      case 3
      then show ?thesis using fal by (auto simp: joinpath_inject)
    qed
  qed
  have calls_eq: "calls st' = calls st1"
  proof (cases r1)
    case (Some ex)
    then show ?thesis using run tp by (simp add: main_script_def)
  next
    case None
    obtain r2 st2 where v: "write_validation_report_to_txt e st1 = (r2, st2)"
      by (cases "write_validation_report_to_txt e st1")
    show ?thesis
    proof (cases r2)
      case (Some ex)
      then show ?thesis using run tp None v write_validation_report_state [OF v]
        by (simp add: main_script_def)
    next
      case n2: None
      then have "write_unmatched_files_report e st2 = (r, st')"
        using run tp None v by (simp add: main_script_def)
      from write_unmatched_report_state [OF this] write_validation_report_state [OF v]
      show ?thesis by simp
    qed
  qed
  have part1: "\<forall>c\<in>set (calls st'). transform_source c \<noteq> Some ?p"
    using calls1 calls_eq by simp
  have part2: "path_str ?p \<in> set (unmatched_files st') \<and>
            (\<exists>content.
               map_of (written st') (joinpath (script_dir e) ''unmatched_files_report.txt'') = Some content \<and>
               path_str ?p @ [CHR 0x0A] \<in> set content)" if rn: "r = None"
  proof -
    have r1n: "r1 = None"
      using run tp rn by (cases r1) (simp_all add: main_script_def)
    obtain r2 st2 where v: "write_validation_report_to_txt e st1 = (r2, st2)"
      by (cases "write_validation_report_to_txt e st1")
    have r2n: "r2 = None"
      using run tp rn r1n v by (cases r2) (simp_all add: main_script_def)
    have w: "write_unmatched_files_report e st2 = (None, st')"
      using run tp rn r1n r2n v by (simp add: main_script_def)
    have "path_str ?p \<in> set (unmatched_files st1)"
      using traverse_dirs_unmatched [OF t [unfolded r1n]] d f fal
      by (auto simp: initial_state_def intro!: bexI [of _ "(current_path, subdirs, files)"])
    then have u2: "path_str ?p \<in> set (unmatched_files st2)"
      using write_validation_report_state [OF v] by simp
    then have "path_str ?p \<in> set (unmatched_files st')"
      using write_unmatched_report_state [OF w] by simp
    then show ?thesis using write_unmatched_report_content [OF w u2] by simp
  qed
  show ?thesis using part1 part2 by blast
qed

text \<open>
  Claim C6. The claim says that the unmatched-files report contains the path of every
  XML file the walker visited without finding a stylesheet. In this run the walker
  visits \<^verbatim>\<open>Unknown.xml\<close>, finds no stylesheet and records its path; it then
  transforms \<^verbatim>\<open>Status1.xml\<close>, which takes 31 seconds. The \<^verbatim>\<open>TimeoutExpired\<close> leaves
  \<^verbatim>\<open>process_file\<close> and \<^verbatim>\<open>traverse_and_process\<close> (the defect of C3) and ends the
  script before \<^verbatim>\<open>write_unmatched_files_report\<close> is called: the path is in the list
  and no report is written.
\<close>

theorem timeout_leaves_unmatched_file_unreported:
  "find_matching_xslt ''Unknown.xml'' [''Status.xslt''] = None \<and>
   main_script
     (scenario (\<lambda>h c. Exited 31 0 (Decodes []) (Decodes [])) [''Status.xslt'']
        [([''/'', ''in''], [], [''Unknown.xml'', ''Status1.xml''])])
     [''/'', ''in''] [''/'', ''xslt''] None ''Modified''
   = (Some TimeoutExpired,
      initial_state
        \<lparr>unmatched_files := [''/in/Unknown.xml''],
         error_log := [''No matching XSLT for Unknown.xml''],
         calls := [Saxon [''/'', ''in'', ''Status1.xml''] [''/'', ''xslt'', ''Status.xslt'']
                     [''/'', ''Modified'', ''Status1.xml'']],
         made_dirs := [[''/'', ''Modified'']],
         written := []\<rparr>)"
  by code_simp

text \<open>
  Claim C8. Directories whose path has a segment equal to the output folder name
  contribute nothing to a run: the walk gives the same result and the same state as a
  walk in which \<^verbatim>\<open>os.walk\<close> does not deliver them at all. In particular no file lying
  in such a directory is ever transformed. The environment is arbitrary, so this covers
  a second run that finds the output of the first one in the tree.
\<close>

theorem walker_skips_output_folder:
  "traverse_and_process e root_dir xslt_dir mfn schema_path st =
     traverse_and_process
       (e\<lparr>walk := \<lambda>r. filter (\<lambda>(d, subdirs, files). mfn \<notin> set d) (walk e r)\<rparr>)
       root_dir xslt_dir mfn schema_path st \<and>
   (mfn \<in> set current_path \<longrightarrow>
      (\<forall>c\<in>set (calls (snd (main_script e root_dir xslt_dir schema_path mfn))).
         transform_source c \<noteq> Some (joinpath current_path file)))"
proof
  show "traverse_and_process e root_dir xslt_dir mfn schema_path st =
     traverse_and_process
       (e\<lparr>walk := \<lambda>r. filter (\<lambda>(d, subdirs, files). mfn \<notin> set d) (walk e r)\<rparr>)
       root_dir xslt_dir mfn schema_path st"
    using traverse_dirs_skip [of e root_dir xslt_dir mfn schema_path _ "walk e root_dir" st]
    by (simp add: traverse_and_process_def load_xslt_files_def traverse_dirs_walk
             split: sum.splits)
next
  show "mfn \<in> set current_path \<longrightarrow>
      (\<forall>c\<in>set (calls (snd (main_script e root_dir xslt_dir schema_path mfn))).
         transform_source c \<noteq> Some (joinpath current_path file))"
  proof (intro impI ballI)
    fix c
    assume m: "mfn \<in> set current_path"
      and c: "c \<in> set (calls (snd (main_script e root_dir xslt_dir schema_path mfn)))"
    from c have "c \<in> set (calls (snd (traverse_and_process e root_dir xslt_dir mfn schema_path initial_state)))"
      by (simp add: main_script_calls)
    from traverse_and_process_calls [OF this] m
    show "transform_source c \<noteq> Some (joinpath current_path file)"
      by (auto simp: joinpath_inject)
  qed
qed

theorem walker_skips_output_folder_witness:
  "''Modified'' \<in> set [''/'', ''data'', ''in'', ''Modified'', ''A''] \<and>
   list_all (\<lambda>c. transform_source c \<noteq> Some [''/'', ''data'', ''in'', ''Modified'', ''A'', ''Status1.xml''])
     (calls (snd (main_script
        (scenario (\<lambda>h c. Exited 1 0 (Decodes []) (Decodes [])) [''Status.xslt'']
          [([''/'', ''data'', ''in''], [''A'', ''Modified''], []),
           ([''/'', ''data'', ''in'', ''A''], [], [''Status1.xml'']),
           ([''/'', ''data'', ''in'', ''Modified''], [''A''], []),
           ([''/'', ''data'', ''in'', ''Modified'', ''A''], [], [''Status1.xml''])])
        [''/'', ''data'', ''in''] [''/'', ''data'', ''xslt''] None ''Modified''))) \<and>
   map transform_source (calls (snd (main_script
        (scenario (\<lambda>h c. Exited 1 0 (Decodes []) (Decodes [])) [''Status.xslt'']
          [([''/'', ''data'', ''in''], [''A'', ''Modified''], []),
           ([''/'', ''data'', ''in'', ''A''], [], [''Status1.xml'']),
           ([''/'', ''data'', ''in'', ''Modified''], [''A''], []),
           ([''/'', ''data'', ''in'', ''Modified'', ''A''], [], [''Status1.xml''])])
        [''/'', ''data'', ''in''] [''/'', ''data'', ''xslt''] None ''Modified'')))
     = [Some [''/'', ''data'', ''in'', ''A'', ''Status1.xml''], None, None]"
proof -
  let ?e = "scenario (\<lambda>h c. Exited 1 0 (Decodes []) (Decodes [])) [''Status.xslt'']
          [([''/'', ''data'', ''in''], [''A'', ''Modified''], []),
           ([''/'', ''data'', ''in'', ''A''], [], [''Status1.xml'']),
           ([''/'', ''data'', ''in'', ''Modified''], [''A''], []),
           ([''/'', ''data'', ''in'', ''Modified'', ''A''], [], [''Status1.xml''])]"
  have m: "''Modified'' \<in> set [''/'', ''data'', ''in'', ''Modified'', ''A'']"
    by simp
  have j: "joinpath [''/'', ''data'', ''in'', ''Modified'', ''A''] ''Status1.xml''
             = [''/'', ''data'', ''in'', ''Modified'', ''A'', ''Status1.xml'']"
    by (simp add: joinpath_def)
  have all: "list_all (\<lambda>c. transform_source c \<noteq> Some [''/'', ''data'', ''in'', ''Modified'', ''A'', ''Status1.xml''])
     (calls (snd (main_script ?e [''/'', ''data'', ''in''] [''/'', ''data'', ''xslt''] None ''Modified'')))"
    using walker_skips_output_folder
            [of ?e "[''/'', ''data'', ''in'']" "[''/'', ''data'', ''xslt'']" "''Modified''" None
                initial_state "[''/'', ''data'', ''in'', ''Modified'', ''A'']" "''Status1.xml''"]
          m
    unfolding j list_all_iff by blast
  have run: "map transform_source (calls (snd (main_script ?e [''/'', ''data'', ''in'']
                [''/'', ''data'', ''xslt''] None ''Modified'')))
     = [Some [''/'', ''data'', ''in'', ''A'', ''Status1.xml''], None, None]"
    by code_simp
  show ?thesis using m all run by blast
qed

end
